theory Spec2Isabelle
  imports Main
begin

section \<open>The transcript aggregator of \<open>TranscriptManager.jsx\<close>\<close>

text \<open>
  The component keeps two pieces of state: the React state \<open>transcript\<close> (an array of
  entries) and the ref \<open>processedEventIds\<close> (a JavaScript \<open>Set\<close>). Its effect on
  \<open>[events]\<close> looks at \<open>events[0]\<close> only and either returns at once or performs one
  \<open>setTranscript\<close> followed by \<open>processedEventIds.current.add(event.event_id)\<close>.
  The embedding passes both pieces of state explicitly.
\<close>

subsection \<open>JavaScript values read by the component\<close>

text \<open>
  Every payload field is a JSON string or absent (\<open>undefined\<close>), so a field is a
  \<open>string option\<close>. A value is truthy when it is a string other than \<open>""\<close>;
  \<open>a || b\<close> is \<open>a\<close> when \<open>a\<close> is truthy and \<open>b\<close> otherwise.
\<close>

definition truthy :: "string option \<Rightarrow> bool" where
  "truthy v = (case v of None \<Rightarrow> False | Some s \<Rightarrow> s \<noteq> [])"

definition js_or :: "string option \<Rightarrow> string option \<Rightarrow> string option" where
  "js_or a b = (if truthy a then a else b)"

text \<open>\<open>if (v) { ... }\<close> followed by \<open>return\<close>: the body runs on a truthy string only.\<close>

definition ifTruthy :: "string option \<Rightarrow> (string \<Rightarrow> 'a) \<Rightarrow> 'a \<Rightarrow> 'a" where
  "ifTruthy v body skip =
     (case v of None \<Rightarrow> skip | Some s \<Rightarrow> if s = [] then skip else body s)"

subsection \<open>Events\<close>

record content_part =
  content_type :: "string option"
  content_text :: "string option"
  content_transcript :: "string option"

record item =
  item_type :: "string option"
  item_role :: "string option"
  item_content :: "content_part list option"

record event =
  event_id :: "string option"
  event_type :: string
  event_delta :: "string option"
  event_text :: "string option"
  event_transcript :: "string option"
  event_output_text :: "string option"
  event_item :: "item option"

subsection \<open>Transcript entries and the component state\<close>

datatype speaker = User | Assistant

text \<open>
  \<open>id: event.event_id || Date.now() + Math.random()\<close>: the event's id when it is truthy,
  a generated number otherwise. The number and the \<open>new Date()\<close> of the timestamp are
  read from the environment of the call; they are opaque tokens here.
\<close>

datatype entry_key = EventId string | Generated nat

record env =
  generated_id :: nat
  new_date :: nat

text \<open>
  An entry literal without an \<open>isPartial\<close> property reads \<open>undefined\<close> there, which the
  component only ever tests for truthiness; the field is \<open>False\<close> for it.
\<close>

record entry =
  entry_id :: entry_key
  speaker :: speaker
  message :: string
  timestamp :: nat
  entry_type :: speaker
  isPartial :: bool

record state =
  transcript :: "entry list"
  processedEventIds :: "string option set"

definition init_state :: state where
  "init_state = \<lparr>transcript = [], processedEventIds = {}\<rparr>"

definition newEntry :: "env \<Rightarrow> event \<Rightarrow> speaker \<Rightarrow> string \<Rightarrow> bool \<Rightarrow> entry" where
  "newEntry e event sp msg partial =
     \<lparr>entry_id = (case event_id event of
                    None \<Rightarrow> Generated (generated_id e)
                  | Some i \<Rightarrow> if i = [] then Generated (generated_id e) else EventId i),
      speaker = sp, message = msg, timestamp = new_date e,
      entry_type = sp, isPartial = partial\<rparr>"

subsection \<open>The three updaters passed to \<open>setTranscript\<close>\<close>

text \<open>
  \<open>prev[prev.length - 1]\<close> is \<open>undefined\<close> on the empty array, and
  \<open>prev.slice(0, -1)\<close> is the array without its last element.
\<close>

text \<open>The delta cases: extend the last entry when it is a partial entry of type \<open>sp\<close>.\<close>

definition mergeDelta :: "env \<Rightarrow> event \<Rightarrow> speaker \<Rightarrow> string \<Rightarrow> entry list \<Rightarrow> entry list" where
  "mergeDelta e event sp deltaText prev =
     (if prev \<noteq> [] \<and> entry_type (last prev) = sp \<and> isPartial (last prev)
      then butlast prev @ [(last prev)\<lparr>message := message (last prev) @ deltaText\<rparr>]
      else prev @ [newEntry e event sp deltaText True])"

text \<open>\<open>input_audio_buffer.transcription.completed\<close>: finalize a partial user entry.\<close>

definition finalizeUser :: "env \<Rightarrow> event \<Rightarrow> string \<Rightarrow> entry list \<Rightarrow> entry list" where
  "finalizeUser e event txt prev =
     (if prev \<noteq> [] \<and> entry_type (last prev) = User \<and> isPartial (last prev)
      then butlast prev @ [(last prev)\<lparr>message := txt, isPartial := False\<rparr>]
      else prev @ [newEntry e event User txt False])"

text \<open>The four assistant \<open>done\<close> cases: finalize the last entry when it is partial.\<close>

definition finalizeLast :: "env \<Rightarrow> event \<Rightarrow> string \<Rightarrow> entry list \<Rightarrow> entry list" where
  "finalizeLast e event txt prev =
     (if prev \<noteq> [] \<and> isPartial (last prev)
      then butlast prev @ [(last prev)\<lparr>message := txt, isPartial := False\<rparr>]
      else prev @ [newEntry e event Assistant txt False])"

text \<open>\<open>setTranscript(f); processedEventIds.current.add(event.event_id)\<close>.\<close>

definition applyUpdate :: "event \<Rightarrow> (entry list \<Rightarrow> entry list) \<Rightarrow> state \<Rightarrow> state" where
  "applyUpdate event f st =
     \<lparr>transcript = f (transcript st),
      processedEventIds = insert (event_id event) (processedEventIds st)\<rparr>"

subsection \<open>The two cases that build \<open>transcriptEntry\<close>\<close>

text \<open>
  \<open>event.item?.type === 'message' && event.item?.role === 'user'\<close>, then
  \<open>event.item.content?.[0]\<close>.
\<close>

definition userMessageContent :: "event \<Rightarrow> content_part option" where
  "userMessageContent event =
     (case event_item event of
        None \<Rightarrow> None
      | Some it \<Rightarrow>
          if item_type it = Some ''message'' \<and> item_role it = Some ''user''
          then (case item_content it of
                  None \<Rightarrow> None
                | Some [] \<Rightarrow> None
                | Some (c # _) \<Rightarrow> Some c)
          else None)"

definition itemEntry ::
  "env \<Rightarrow> event \<Rightarrow> string \<Rightarrow> (content_part \<Rightarrow> string option) \<Rightarrow> entry option" where
  "itemEntry e event ctype field =
     (case userMessageContent event of
        None \<Rightarrow> None
      | Some content \<Rightarrow>
          if content_type content = Some ctype
          then ifTruthy (field content) (\<lambda>s. Some (newEntry e event User s False)) None
          else None)"

text \<open>The code after the \<open>switch\<close>: \<open>if (transcriptEntry) { ... }\<close>.\<close>

definition addTranscriptEntry :: "event \<Rightarrow> entry option \<Rightarrow> state \<Rightarrow> state" where
  "addTranscriptEntry event transcriptEntry st =
     (case transcriptEntry of
        None \<Rightarrow> st
      | Some en \<Rightarrow> applyUpdate event (\<lambda>prev. prev @ [en]) st)"

subsection \<open>The effect body for one event\<close>

text \<open>
  Lines 27 to 383 of the component, for a non-null \<open>events[0]\<close>: the duplicate check
  and the \<open>switch\<close> on \<open>event.type\<close>, in the order of the source.
\<close>

definition ingest :: "env \<Rightarrow> event \<Rightarrow> state \<Rightarrow> state" where
  "ingest e event st =
    (if event_id event \<in> processedEventIds st then st
     else if event_type event = ''conversation.item.create'' then
       addTranscriptEntry event (itemEntry e event ''input_text'' content_text) st
     else if event_type event = ''conversation.item.input_audio_transcription.delta'' then
       ifTruthy (js_or (event_delta event) (event_text event))
         (\<lambda>deltaText. applyUpdate event (mergeDelta e event User deltaText) st) st
     else if event_type event = ''input_audio_buffer.speech_started'' then st
     else if event_type event = ''input_audio_buffer.speech_stopped'' then st
     else if event_type event = ''input_audio_buffer.committed'' then st
     else if event_type event = ''input_audio_buffer.transcription.delta'' then
       ifTruthy (js_or (event_delta event) (event_text event))
         (\<lambda>deltaText. applyUpdate event (mergeDelta e event User deltaText) st) st
     else if event_type event = ''conversation.item.input_audio_transcription.completed'' then
       addTranscriptEntry event
         (ifTruthy (event_transcript event)
            (\<lambda>s. Some (newEntry e event User s False)) None) st
     else if event_type event = ''conversation.item.added'' then
       addTranscriptEntry event (itemEntry e event ''input_audio'' content_transcript) st
     else if event_type event = ''input_audio_buffer.transcription.completed'' then
       ifTruthy (event_transcript event)
         (\<lambda>s. applyUpdate event (finalizeUser e event s) st) st
     else if event_type event = ''response.audio_transcript.delta'' then
       ifTruthy (event_delta event)
         (\<lambda>d. applyUpdate event (mergeDelta e event Assistant d) st) st
     else if event_type event = ''response.output_audio_transcript.delta'' then
       ifTruthy (js_or (event_delta event) (event_text event))
         (\<lambda>d. applyUpdate event (mergeDelta e event Assistant d) st) st
     else if event_type event = ''response.audio_transcript.done'' then
       ifTruthy (event_transcript event)
         (\<lambda>s. applyUpdate event (finalizeLast e event s) st) st
     else if event_type event = ''response.output_audio_transcript.done'' then
       ifTruthy (js_or (event_transcript event) (event_text event))
         (\<lambda>s. applyUpdate event (finalizeLast e event s) st) st
     else if event_type event = ''response.text.delta'' then
       ifTruthy (event_delta event)
         (\<lambda>d. applyUpdate event (mergeDelta e event Assistant d) st) st
     else if event_type event = ''response.output_text.delta'' then
       ifTruthy (js_or (event_delta event) (event_text event))
         (\<lambda>d. applyUpdate event (mergeDelta e event Assistant d) st) st
     else if event_type event = ''response.text.done'' then
       ifTruthy (event_text event)
         (\<lambda>s. applyUpdate event (finalizeLast e event s) st) st
     else if event_type event = ''response.output_text.done'' then
       ifTruthy (js_or (js_or (event_text event) (event_output_text event))
                   (event_transcript event))
         (\<lambda>s. applyUpdate event (finalizeLast e event s) st) st
     else st)"

text \<open>
  The whole effect: an empty (or missing) \<open>events\<close> array resets both pieces of state,
  otherwise the newest event \<open>events[0]\<close> is ingested.
\<close>

definition processEvents :: "env \<Rightarrow> event list \<Rightarrow> state \<Rightarrow> state" where
  "processEvents e events st =
     (case events of
        [] \<Rightarrow> \<lparr>transcript = [], processedEventIds = {}\<rparr>
      | event # _ \<Rightarrow> ingest e event st)"

text \<open>\<open>clearTranscript\<close>, once the user has confirmed: \<open>setTranscript([])\<close>.\<close>

definition clearTranscript :: "state \<Rightarrow> state" where
  "clearTranscript st = st\<lparr>transcript := []\<rparr>"

text \<open>
  A session of the component: the effect runs once per change of \<open>events\<close>, and the
  user may clear the transcript in between. These are all the writes to the two pieces
  of state.
\<close>

datatype action = EventsChanged env "event list" | ClearConfirmed

fun run :: "action list \<Rightarrow> state \<Rightarrow> state" where
  "run [] st = st"
| "run (EventsChanged e events # rest) st = run rest (processEvents e events st)"
| "run (ClearConfirmed # rest) st = run rest (clearTranscript st)"

subsection \<open>The text each case tests\<close>

text \<open>
  Each case of the \<open>switch\<close> that can change the transcript guards its body by the
  truthiness of one expression, which is also the text it stores. \<open>payload\<close> collects
  these expressions, case by case; the three \<open>input_audio_buffer\<close> notifications and
  every type without a case have none.
\<close>

definition itemText ::
  "event \<Rightarrow> string \<Rightarrow> (content_part \<Rightarrow> string option) \<Rightarrow> string option" where
  "itemText event ctype field =
     (case userMessageContent event of
        None \<Rightarrow> None
      | Some content \<Rightarrow> if content_type content = Some ctype then field content else None)"

definition payload :: "event \<Rightarrow> string option" where
  "payload event =
    (if event_type event = ''conversation.item.create'' then
       itemText event ''input_text'' content_text
     else if event_type event = ''conversation.item.input_audio_transcription.delta'' then
       js_or (event_delta event) (event_text event)
     else if event_type event = ''input_audio_buffer.speech_started'' then None
     else if event_type event = ''input_audio_buffer.speech_stopped'' then None
     else if event_type event = ''input_audio_buffer.committed'' then None
     else if event_type event = ''input_audio_buffer.transcription.delta'' then
       js_or (event_delta event) (event_text event)
     else if event_type event = ''conversation.item.input_audio_transcription.completed'' then
       event_transcript event
     else if event_type event = ''conversation.item.added'' then
       itemText event ''input_audio'' content_transcript
     else if event_type event = ''input_audio_buffer.transcription.completed'' then
       event_transcript event
     else if event_type event = ''response.audio_transcript.delta'' then
       event_delta event
     else if event_type event = ''response.output_audio_transcript.delta'' then
       js_or (event_delta event) (event_text event)
     else if event_type event = ''response.audio_transcript.done'' then
       event_transcript event
     else if event_type event = ''response.output_audio_transcript.done'' then
       js_or (event_transcript event) (event_text event)
     else if event_type event = ''response.text.delta'' then
       event_delta event
     else if event_type event = ''response.output_text.delta'' then
       js_or (event_delta event) (event_text event)
     else if event_type event = ''response.text.done'' then
       event_text event
     else if event_type event = ''response.output_text.done'' then
       js_or (js_or (event_text event) (event_output_text event)) (event_transcript event)
     else None)"

text \<open>The event types whose case can change the transcript.\<close>

definition handledTypes :: "string list" where
  "handledTypes =
     [''conversation.item.create'',
      ''conversation.item.input_audio_transcription.delta'',
      ''input_audio_buffer.transcription.delta'',
      ''conversation.item.input_audio_transcription.completed'',
      ''conversation.item.added'',
      ''input_audio_buffer.transcription.completed'',
      ''response.audio_transcript.delta'',
      ''response.output_audio_transcript.delta'',
      ''response.audio_transcript.done'',
      ''response.output_audio_transcript.done'',
      ''response.text.delta'',
      ''response.output_text.delta'',
      ''response.text.done'',
      ''response.output_text.done'']"

subsection \<open>Auxiliary notions for the proofs\<close>

text \<open>The functions that \<open>ingest\<close> can pass to \<open>setTranscript\<close> for one event.\<close>

definition updaters :: "env \<Rightarrow> event \<Rightarrow> (entry list \<Rightarrow> entry list) set" where
  "updaters e event =
     {f. \<exists>t. t \<noteq> [] \<and>
          (f = mergeDelta e event User t \<or> f = mergeDelta e event Assistant t
           \<or> f = finalizeUser e event t \<or> f = finalizeLast e event t
           \<or> f = (\<lambda>prev. prev @ [newEntry e event User t False]))}"

definition shape :: "env \<Rightarrow> event \<Rightarrow> state \<Rightarrow> state \<Rightarrow> bool" where
  "shape e event st st' =
     (st' = st \<or> (\<exists>f \<in> updaters e event. st' = applyUpdate event f st))"

text \<open>What the truthiness of the tested text decides, for an event that is not skipped.\<close>

definition outcome :: "string option \<Rightarrow> event \<Rightarrow> state \<Rightarrow> state \<Rightarrow> bool" where
  "outcome p event st st' =
     (if truthy p then event_id event \<in> processedEventIds st' else st' = st)"

text \<open>No two neighbours are both partial entries of one speaker.\<close>

fun no_adjacent_partials :: "entry list \<Rightarrow> bool" where
  "no_adjacent_partials [] = True"
| "no_adjacent_partials [x] = True"
| "no_adjacent_partials (x # y # zs) =
     (\<not> (isPartial x \<and> isPartial y \<and> speaker x = speaker y)
      \<and> no_adjacent_partials (y # zs))"

text \<open>The entry fields \<open>type\<close> and \<open>speaker\<close> agree.\<close>

definition typed :: "entry list \<Rightarrow> bool" where
  "typed xs = list_all (\<lambda>x. entry_type x = speaker x) xs"

text \<open>What the transcript pane shows of an entry, apart from its time.\<close>

definition view :: "entry \<Rightarrow> speaker \<times> bool \<times> string" where
  "view x = (speaker x, isPartial x, message x)"

subsection \<open>Concrete events\<close>

definition blankEvent :: "string \<Rightarrow> string option \<Rightarrow> event" where
  "blankEvent ty i =
     \<lparr>event_id = i, event_type = ty, event_delta = None, event_text = None,
      event_transcript = None, event_output_text = None, event_item = None\<rparr>"

definition deltaEvent :: "string \<Rightarrow> string option \<Rightarrow> string \<Rightarrow> event" where
  "deltaEvent ty i d = (blankEvent ty i)\<lparr>event_delta := Some d\<rparr>"

definition textEvent :: "string \<Rightarrow> string option \<Rightarrow> string \<Rightarrow> event" where
  "textEvent ty i s = (blankEvent ty i)\<lparr>event_text := Some s\<rparr>"

definition transcriptEvent :: "string \<Rightarrow> string option \<Rightarrow> string \<Rightarrow> event" where
  "transcriptEvent ty i s = (blankEvent ty i)\<lparr>event_transcript := Some s\<rparr>"

text \<open>The event that \<open>sendTextMessage\<close> of the application builds for a typed message.\<close>

definition userTextEvent :: "string option \<Rightarrow> string \<Rightarrow> event" where
  "userTextEvent i s =
     (blankEvent ''conversation.item.create'' i)
       \<lparr>event_item := Some \<lparr>item_type = Some ''message'', item_role = Some ''user'',
           item_content = Some [\<lparr>content_type = Some ''input_text'',
             content_text = Some s, content_transcript = None\<rparr>]\<rparr>\<rparr>"

definition env0 :: env where
  "env0 = \<lparr>generated_id = 7, new_date = 1000\<rparr>"

definition env1 :: env where
  "env1 = \<lparr>generated_id = 8, new_date = 2000\<rparr>"

definition partialEntry :: "speaker \<Rightarrow> string \<Rightarrow> entry" where
  "partialEntry sp s =
     \<lparr>entry_id = EventId ''evt_0'', speaker = sp, message = s, timestamp = 500,
      entry_type = sp, isPartial = True\<rparr>"

definition stateWith :: "entry list \<Rightarrow> state" where
  "stateWith xs = \<lparr>transcript = xs, processedEventIds = {Some ''evt_0''}\<rparr>"

text \<open>A short session: two assistant text deltas, then a user audio delta.\<close>

definition twoDeltas :: "action list" where
  "twoDeltas =
     [EventsChanged env0 [deltaEvent ''response.text.delta'' (Some ''evt_1'') ''Hi''],
      EventsChanged env0 [deltaEvent ''response.text.delta'' (Some ''evt_2'') '' there'',
                          deltaEvent ''response.text.delta'' (Some ''evt_1'') ''Hi'']]"

definition userDelta :: event where
  "userDelta = deltaEvent ''input_audio_buffer.transcription.delta'' (Some ''evt_3'') ''Yes''"

section \<open>Properties\<close>

subsection \<open>Every call is a no-op or one update\<close>

lemma mergeDelta_updater: "t \<noteq> [] \<Longrightarrow> mergeDelta e event sp t \<in> updaters e event"
  by (cases sp) (auto simp: updaters_def)

lemma finalizeUser_updater: "t \<noteq> [] \<Longrightarrow> finalizeUser e event t \<in> updaters e event"
  by (auto simp: updaters_def)

lemma finalizeLast_updater: "t \<noteq> [] \<Longrightarrow> finalizeLast e event t \<in> updaters e event"
  by (auto simp: updaters_def)

lemma shape_refl: "shape e event st st"
  by (simp add: shape_def)

lemma shape_ifTruthy:
  assumes "\<And>t. t \<noteq> [] \<Longrightarrow> F t \<in> updaters e event"
  shows "shape e event st (ifTruthy v (\<lambda>s. applyUpdate event (F s) st) st)"
  using assms by (auto simp: shape_def ifTruthy_def split: option.splits)

lemma shape_mergeDelta:
  "shape e event st (ifTruthy v (\<lambda>s. applyUpdate event (mergeDelta e event sp s) st) st)"
  by (rule shape_ifTruthy) (rule mergeDelta_updater)

lemma shape_finalizeUser:
  "shape e event st (ifTruthy v (\<lambda>s. applyUpdate event (finalizeUser e event s) st) st)"
  by (rule shape_ifTruthy) (rule finalizeUser_updater)

lemma shape_finalizeLast:
  "shape e event st (ifTruthy v (\<lambda>s. applyUpdate event (finalizeLast e event s) st) st)"
  by (rule shape_ifTruthy) (rule finalizeLast_updater)

lemma shape_itemEntry:
  "shape e event st (addTranscriptEntry event (itemEntry e event c fld) st)"
  by (auto simp: shape_def addTranscriptEntry_def itemEntry_def ifTruthy_def updaters_def
        split: option.splits)

lemma shape_newEntry:
  "shape e event st (addTranscriptEntry event
      (ifTruthy v (\<lambda>s. Some (newEntry e event User s False)) None) st)"
  by (auto simp: shape_def addTranscriptEntry_def ifTruthy_def updaters_def
        split: option.splits)

lemma ingest_shape: "shape e event st (ingest e event st)"
  unfolding ingest_def
  by (simp only: shape_refl shape_mergeDelta shape_finalizeUser shape_finalizeLast
        shape_itemEntry shape_newEntry if_split simp_thms)

subsection \<open>The tested text decides whether the event is recorded\<close>

lemma outcome_None: "outcome None event st st"
  by (simp add: outcome_def truthy_def)

lemma outcome_ifTruthy:
  "outcome v event st (ifTruthy v (\<lambda>s. applyUpdate event (F s) st) st)"
  by (auto simp: outcome_def truthy_def ifTruthy_def applyUpdate_def split: option.splits)

lemma outcome_newEntry:
  "outcome v event st (addTranscriptEntry event (ifTruthy v (\<lambda>s. Some (F s)) None) st)"
  by (auto simp: outcome_def truthy_def ifTruthy_def applyUpdate_def addTranscriptEntry_def
        split: option.splits)

lemma outcome_itemEntry:
  "outcome (itemText event c fld) event st
     (addTranscriptEntry event (itemEntry e event c fld) st)"
  by (auto simp: outcome_def itemText_def itemEntry_def truthy_def ifTruthy_def
        applyUpdate_def addTranscriptEntry_def split: option.splits)

lemma ingest_outcome:
  "event_id event \<notin> processedEventIds st \<longrightarrow>
     outcome (payload event) event st (ingest e event st)"
  unfolding ingest_def payload_def
  by (simp add: outcome_None outcome_ifTruthy outcome_newEntry outcome_itemEntry)

lemma ingest_dup: "event_id event \<in> processedEventIds st \<Longrightarrow> ingest e event st = st"
  by (simp add: ingest_def)

lemma ingest_falsy: "\<not> truthy (payload event) \<Longrightarrow> ingest e event st = st"
  using ingest_outcome[of event st e] ingest_dup[of event st e]
  by (auto simp: outcome_def)

lemma ingest_truthy:
  "truthy (payload event) \<Longrightarrow> event_id event \<notin> processedEventIds st \<Longrightarrow>
     event_id event \<in> processedEventIds (ingest e event st)"
  using ingest_outcome[of event st e] by (simp add: outcome_def)

lemma ingest_twice: "ingest e' event (ingest e event st) = ingest e event st"
proof (cases "event_id event \<in> processedEventIds st \<or> \<not> truthy (payload event)")
  case True
  then have "ingest e event st = st"
    using ingest_dup ingest_falsy by blast
  moreover from True have "ingest e' event st = st"
    using ingest_dup ingest_falsy by blast
  ultimately show ?thesis by simp
next
  case False
  then have "event_id event \<in> processedEventIds (ingest e event st)"
    using ingest_truthy by blast
  then show ?thesis by (rule ingest_dup)
qed


subsection \<open>Each update touches the end of the transcript only\<close>

lemma updater_frame:
  assumes "f \<in> updaters e event"
  shows "(\<exists>x. f prev = prev @ [x]) \<or> (prev \<noteq> [] \<and> (\<exists>x. f prev = butlast prev @ [x]))"
  using assms
  by (auto simp: updaters_def mergeDelta_def finalizeUser_def finalizeLast_def)

lemma ingest_transcript_cases:
  "transcript (ingest e event st) = transcript st
   \<or> (\<exists>x. transcript (ingest e event st) = transcript st @ [x])
   \<or> (transcript st \<noteq> [] \<and>
       (\<exists>x. transcript (ingest e event st) = butlast (transcript st) @ [x]))"
proof -
  from ingest_shape[of e event st] consider
    (same) "ingest e event st = st"
  | (upd) f where "f \<in> updaters e event" "ingest e event st = applyUpdate event f st"
    by (auto simp: shape_def)
  then show ?thesis
  proof cases
    case same
    then show ?thesis by simp
  next
    case upd
    then show ?thesis
      using updater_frame[of f e event "transcript st"] by (auto simp: applyUpdate_def)
  qed
qed

lemma ingest_butlast:
  "take (length (transcript st) - 1) (transcript (ingest e event st)) = butlast (transcript st)"
  using ingest_transcript_cases[of e event st]
  by (auto simp: butlast_conv_take)

subsection \<open>Neighbouring partial entries\<close>

lemma no_adjacent_partials_snoc:
  "no_adjacent_partials (xs @ [y]) =
     (no_adjacent_partials xs \<and>
      (xs = [] \<or> \<not> (isPartial (last xs) \<and> isPartial y \<and> speaker (last xs) = speaker y)))"
  by (induction xs rule: no_adjacent_partials.induct) auto

lemma no_adjacent_partials_butlast:
  "no_adjacent_partials xs \<Longrightarrow> no_adjacent_partials (butlast xs)"
  by (induction xs rule: no_adjacent_partials.induct) auto

lemma no_adjacent_partials_replace_last:
  assumes "no_adjacent_partials xs" and "xs \<noteq> []"
    and "speaker y = speaker (last xs)" and "isPartial y \<longrightarrow> isPartial (last xs)"
  shows "no_adjacent_partials (butlast xs @ [y])"
proof -
  from assms(2) have split: "xs = butlast xs @ [last xs]" by simp
  with assms(1) have "no_adjacent_partials (butlast xs @ [last xs])" by simp
  then show ?thesis
    using assms(3,4) unfolding no_adjacent_partials_snoc by auto
qed

lemma typed_snoc: "typed (xs @ [y]) = (typed xs \<and> entry_type y = speaker y)"
  by (auto simp: typed_def)

lemma typed_last: "typed xs \<Longrightarrow> xs \<noteq> [] \<Longrightarrow> entry_type (last xs) = speaker (last xs)"
  by (simp add: typed_def list_all_iff)

lemma typed_butlast: "typed xs \<Longrightarrow> typed (butlast xs)"
  by (auto simp: typed_def list_all_iff dest: in_set_butlastD)

lemma mergeDelta_inv:
  assumes "typed prev" and "no_adjacent_partials prev"
  shows "typed (mergeDelta e event sp t prev) \<and> no_adjacent_partials (mergeDelta e event sp t prev)"
proof (cases "prev \<noteq> [] \<and> entry_type (last prev) = sp \<and> isPartial (last prev)")
  case True
  then have "no_adjacent_partials
      (butlast prev @ [(last prev)\<lparr>message := message (last prev) @ t\<rparr>])"
    using assms(2) by (intro no_adjacent_partials_replace_last) simp_all
  moreover have "typed (butlast prev @ [(last prev)\<lparr>message := message (last prev) @ t\<rparr>])"
    using True assms(1) typed_last[OF assms(1)]
    by (simp add: typed_snoc typed_butlast)
  ultimately show ?thesis using True by (simp add: mergeDelta_def)
next
  case False
  then have "prev = [] \<or> \<not> (isPartial (last prev) \<and> speaker (last prev) = sp)"
    using typed_last[OF assms(1)] by auto
  then show ?thesis
    using False assms
    by (auto simp: mergeDelta_def typed_snoc no_adjacent_partials_snoc newEntry_def)
qed

lemma finalized_inv:
  assumes "typed prev" and "no_adjacent_partials prev" and "prev \<noteq> []"
  shows "typed (butlast prev @ [(last prev)\<lparr>message := t, isPartial := False\<rparr>])
       \<and> no_adjacent_partials (butlast prev @ [(last prev)\<lparr>message := t, isPartial := False\<rparr>])"
proof
  show "typed (butlast prev @ [(last prev)\<lparr>message := t, isPartial := False\<rparr>])"
    using assms(1,3) by (simp add: typed_snoc typed_butlast typed_last)
  show "no_adjacent_partials (butlast prev @ [(last prev)\<lparr>message := t, isPartial := False\<rparr>])"
    using assms(2,3) by (intro no_adjacent_partials_replace_last) simp_all
qed

lemma appended_final_inv:
  assumes "typed prev" and "no_adjacent_partials prev"
  shows "typed (prev @ [newEntry e event sp t False])
       \<and> no_adjacent_partials (prev @ [newEntry e event sp t False])"
  using assms by (simp add: typed_snoc no_adjacent_partials_snoc newEntry_def)

lemma updater_inv:
  assumes "f \<in> updaters e event" and "typed prev" and "no_adjacent_partials prev"
  shows "typed (f prev) \<and> no_adjacent_partials (f prev)"
proof -
  from assms(1) obtain t where
    "f = mergeDelta e event User t \<or> f = mergeDelta e event Assistant t
     \<or> f = finalizeUser e event t \<or> f = finalizeLast e event t
     \<or> f = (\<lambda>prev. prev @ [newEntry e event User t False])"
    by (auto simp: updaters_def)
  then show ?thesis
    using mergeDelta_inv[OF assms(2,3)] finalized_inv[OF assms(2,3)]
      appended_final_inv[OF assms(2,3)]
    by (auto simp: finalizeUser_def finalizeLast_def)
qed

lemma ingest_inv:
  assumes "typed (transcript st)" and "no_adjacent_partials (transcript st)"
  shows "typed (transcript (ingest e event st))
       \<and> no_adjacent_partials (transcript (ingest e event st))"
  using ingest_shape[of e event st] assms updater_inv[of _ e event "transcript st"]
  by (auto simp: shape_def applyUpdate_def)

lemma processEvents_inv:
  assumes "typed (transcript st)" and "no_adjacent_partials (transcript st)"
  shows "typed (transcript (processEvents e events st))
       \<and> no_adjacent_partials (transcript (processEvents e events st))"
  using ingest_inv[OF assms] by (cases events) (simp_all add: processEvents_def typed_def)

lemma clearTranscript_inv:
  "typed (transcript (clearTranscript st)) \<and> no_adjacent_partials (transcript (clearTranscript st))"
  by (simp add: clearTranscript_def typed_def)

lemma run_inv:
  "typed (transcript st) \<Longrightarrow> no_adjacent_partials (transcript st) \<Longrightarrow>
     typed (transcript (run steps st)) \<and> no_adjacent_partials (transcript (run steps st))"
proof (induction steps st rule: run.induct)
  case (1 st)
  then show ?case by simp
next
  case (2 e events rest st)
  from "2.prems" have "typed (transcript (processEvents e events st))"
    and "no_adjacent_partials (transcript (processEvents e events st))"
    using processEvents_inv by blast+
  then show ?case using "2.IH" by simp
next
  case (3 rest st)
  then show ?case using clearTranscript_inv[of st] by simp
qed

lemma reachable_inv:
  "typed (transcript (run steps init_state))
   \<and> no_adjacent_partials (transcript (run steps init_state))"
  by (rule run_inv) (simp_all add: init_state_def typed_def)

lemma new_partial_only_after_other:
  assumes "typed (transcript st)"
    and "transcript (ingest e event st) = transcript st @ [x]" and "isPartial x"
  shows "transcript st = []
       \<or> \<not> (isPartial (last (transcript st)) \<and> speaker (last (transcript st)) = speaker x)"
proof -
  from ingest_shape[of e event st] assms(2) obtain f where
    f: "f \<in> updaters e event" "f (transcript st) = transcript st @ [x]"
    by (auto simp: shape_def applyUpdate_def)
  have len: "butlast (transcript st) @ [y] \<noteq> transcript st @ [x]"
    if "transcript st \<noteq> []" for y
  proof
    assume "butlast (transcript st) @ [y] = transcript st @ [x]"
    then have "length (butlast (transcript st) @ [y]) = length (transcript st @ [x])"
      by simp
    with that show False by simp
  qed
  from f assms(3) typed_last[OF assms(1)] show ?thesis
    using len
    by (auto simp: updaters_def mergeDelta_def finalizeUser_def finalizeLast_def newEntry_def
          split: if_splits)
qed


subsection \<open>What each group of cases does with a truthy text\<close>

lemma ifTruthy_Some: "v = Some t \<Longrightarrow> t \<noteq> [] \<Longrightarrow> ifTruthy v body skip = body t"
  by (simp add: ifTruthy_def)

lemma itemEntry_Some:
  "itemText event c fld = Some t \<Longrightarrow> t \<noteq> [] \<Longrightarrow>
     itemEntry e event c fld = Some (newEntry e event User t False)"
  by (auto simp: itemText_def itemEntry_def ifTruthy_def split: option.splits if_splits)

lemma ingest_dispatch:
  assumes "event_id event \<notin> processedEventIds st"
  shows "event_type event = ''conversation.item.create'' \<Longrightarrow>
      ingest e event st =
        addTranscriptEntry event (itemEntry e event ''input_text'' content_text) st"
    and "event_type event = ''conversation.item.input_audio_transcription.delta'' \<Longrightarrow>
      ingest e event st = ifTruthy (js_or (event_delta event) (event_text event))
         (\<lambda>deltaText. applyUpdate event (mergeDelta e event User deltaText) st) st"
    and "event_type event = ''input_audio_buffer.transcription.delta'' \<Longrightarrow>
      ingest e event st = ifTruthy (js_or (event_delta event) (event_text event))
         (\<lambda>deltaText. applyUpdate event (mergeDelta e event User deltaText) st) st"
    and "event_type event = ''conversation.item.input_audio_transcription.completed'' \<Longrightarrow>
      ingest e event st = addTranscriptEntry event
         (ifTruthy (event_transcript event)
            (\<lambda>s. Some (newEntry e event User s False)) None) st"
    and "event_type event = ''conversation.item.added'' \<Longrightarrow>
      ingest e event st =
        addTranscriptEntry event (itemEntry e event ''input_audio'' content_transcript) st"
    and "event_type event = ''input_audio_buffer.transcription.completed'' \<Longrightarrow>
      ingest e event st = ifTruthy (event_transcript event)
         (\<lambda>s. applyUpdate event (finalizeUser e event s) st) st"
    and "event_type event = ''response.audio_transcript.delta'' \<Longrightarrow>
      ingest e event st = ifTruthy (event_delta event)
         (\<lambda>d. applyUpdate event (mergeDelta e event Assistant d) st) st"
    and "event_type event = ''response.output_audio_transcript.delta'' \<Longrightarrow>
      ingest e event st = ifTruthy (js_or (event_delta event) (event_text event))
         (\<lambda>d. applyUpdate event (mergeDelta e event Assistant d) st) st"
    and "event_type event = ''response.audio_transcript.done'' \<Longrightarrow>
      ingest e event st = ifTruthy (event_transcript event)
         (\<lambda>s. applyUpdate event (finalizeLast e event s) st) st"
    and "event_type event = ''response.output_audio_transcript.done'' \<Longrightarrow>
      ingest e event st = ifTruthy (js_or (event_transcript event) (event_text event))
         (\<lambda>s. applyUpdate event (finalizeLast e event s) st) st"
    and "event_type event = ''response.text.delta'' \<Longrightarrow>
      ingest e event st = ifTruthy (event_delta event)
         (\<lambda>d. applyUpdate event (mergeDelta e event Assistant d) st) st"
    and "event_type event = ''response.output_text.delta'' \<Longrightarrow>
      ingest e event st = ifTruthy (js_or (event_delta event) (event_text event))
         (\<lambda>d. applyUpdate event (mergeDelta e event Assistant d) st) st"
    and "event_type event = ''response.text.done'' \<Longrightarrow>
      ingest e event st = ifTruthy (event_text event)
         (\<lambda>s. applyUpdate event (finalizeLast e event s) st) st"
    and "event_type event = ''response.output_text.done'' \<Longrightarrow>
      ingest e event st =
        ifTruthy (js_or (js_or (event_text event) (event_output_text event))
                    (event_transcript event))
         (\<lambda>s. applyUpdate event (finalizeLast e event s) st) st"
  using assms by (simp_all add: ingest_def)

lemma payload_dispatch:
  shows "event_type event = ''conversation.item.create'' \<Longrightarrow>
      payload event = itemText event ''input_text'' content_text"
    and "event_type event = ''conversation.item.input_audio_transcription.delta'' \<Longrightarrow>
      payload event = js_or (event_delta event) (event_text event)"
    and "event_type event = ''input_audio_buffer.transcription.delta'' \<Longrightarrow>
      payload event = js_or (event_delta event) (event_text event)"
    and "event_type event = ''conversation.item.input_audio_transcription.completed'' \<Longrightarrow>
      payload event = event_transcript event"
    and "event_type event = ''conversation.item.added'' \<Longrightarrow>
      payload event = itemText event ''input_audio'' content_transcript"
    and "event_type event = ''input_audio_buffer.transcription.completed'' \<Longrightarrow>
      payload event = event_transcript event"
    and "event_type event = ''response.audio_transcript.delta'' \<Longrightarrow>
      payload event = event_delta event"
    and "event_type event = ''response.output_audio_transcript.delta'' \<Longrightarrow>
      payload event = js_or (event_delta event) (event_text event)"
    and "event_type event = ''response.audio_transcript.done'' \<Longrightarrow>
      payload event = event_transcript event"
    and "event_type event = ''response.output_audio_transcript.done'' \<Longrightarrow>
      payload event = js_or (event_transcript event) (event_text event)"
    and "event_type event = ''response.text.delta'' \<Longrightarrow>
      payload event = event_delta event"
    and "event_type event = ''response.output_text.delta'' \<Longrightarrow>
      payload event = js_or (event_delta event) (event_text event)"
    and "event_type event = ''response.text.done'' \<Longrightarrow>
      payload event = event_text event"
    and "event_type event = ''response.output_text.done'' \<Longrightarrow>
      payload event =
        js_or (js_or (event_text event) (event_output_text event)) (event_transcript event)"
  by (simp_all add: payload_def)

lemma ingest_user_delta:
  assumes "event_type event \<in> {''conversation.item.input_audio_transcription.delta'',
             ''input_audio_buffer.transcription.delta''}"
    and "payload event = Some t" and "t \<noteq> []"
    and "event_id event \<notin> processedEventIds st"
  shows "ingest e event st = applyUpdate event (mergeDelta e event User t) st"
  using assms by (auto simp: ingest_dispatch payload_dispatch ifTruthy_Some)

lemma ingest_assistant_delta:
  assumes "event_type event \<in> {''response.audio_transcript.delta'',
             ''response.output_audio_transcript.delta'',
             ''response.text.delta'', ''response.output_text.delta''}"
    and "payload event = Some t" and "t \<noteq> []"
    and "event_id event \<notin> processedEventIds st"
  shows "ingest e event st = applyUpdate event (mergeDelta e event Assistant t) st"
  using assms by (auto simp: ingest_dispatch payload_dispatch ifTruthy_Some)

lemma ingest_assistant_done:
  assumes "event_type event \<in> {''response.audio_transcript.done'',
             ''response.output_audio_transcript.done'',
             ''response.text.done'', ''response.output_text.done''}"
    and "payload event = Some t" and "t \<noteq> []"
    and "event_id event \<notin> processedEventIds st"
  shows "ingest e event st = applyUpdate event (finalizeLast e event t) st"
  using assms by (auto simp: ingest_dispatch payload_dispatch ifTruthy_Some)

lemma ingest_buffer_completed:
  assumes "event_type event = ''input_audio_buffer.transcription.completed''"
    and "payload event = Some t" and "t \<noteq> []"
    and "event_id event \<notin> processedEventIds st"
  shows "ingest e event st = applyUpdate event (finalizeUser e event t) st"
  using assms by (auto simp: ingest_dispatch payload_dispatch ifTruthy_Some)

lemma ingest_complete_as_new:
  assumes "event_type event \<in> {''conversation.item.create'',
             ''conversation.item.input_audio_transcription.completed'',
             ''conversation.item.added''}"
    and "payload event = Some t" and "t \<noteq> []"
    and "event_id event \<notin> processedEventIds st"
  shows "ingest e event st = applyUpdate event (\<lambda>prev. prev @ [newEntry e event User t False]) st"
  using assms
  by (auto simp: ingest_dispatch payload_dispatch ifTruthy_Some itemEntry_Some
        addTranscriptEntry_def)

lemma unhandled_payload:
  "event_type event \<notin> set handledTypes \<Longrightarrow> payload event = None"
  unfolding payload_def handledTypes_def by simp

lemmas eval_defs = ingest_def payload_def itemText_def ifTruthy_def js_or_def truthy_def
  applyUpdate_def mergeDelta_def finalizeUser_def finalizeLast_def newEntry_def
  addTranscriptEntry_def itemEntry_def userMessageContent_def init_state_def
  blankEvent_def deltaEvent_def textEvent_def transcriptEvent_def userTextEvent_def
  env0_def env1_def view_def partialEntry_def stateWith_def handledTypes_def


section \<open>The claims\<close>

subsection \<open>C1: idempotence\<close>

text \<open>
  Claim C1. For every event that carries an \<open>event_id\<close>, ingesting it a second time
  changes nothing: the transcript and the set of processed ids after two calls are
  those after one call. The two calls may read different clocks and random numbers.
\<close>

theorem ingest_idempotent:
  assumes "event_id event = Some i"
  shows "transcript (ingest e' event (ingest e event st)) = transcript (ingest e event st)
       \<and> processedEventIds (ingest e' event (ingest e event st))
           = processedEventIds (ingest e event st)"
  by (simp add: ingest_twice)

theorem ingest_idempotent_witness:
  "event_id (deltaEvent ''response.audio_transcript.delta'' (Some ''evt_1'') ''Hi'')
     = Some ''evt_1''
   \<and> map view (transcript
         (ingest env1 (deltaEvent ''response.audio_transcript.delta'' (Some ''evt_1'') ''Hi'')
           (ingest env0 (deltaEvent ''response.audio_transcript.delta'' (Some ''evt_1'') ''Hi'')
             init_state)))
       = [(Assistant, True, ''Hi'')]
   \<and> processedEventIds
         (ingest env1 (deltaEvent ''response.audio_transcript.delta'' (Some ''evt_1'') ''Hi'')
           (ingest env0 (deltaEvent ''response.audio_transcript.delta'' (Some ''evt_1'') ''Hi'')
             init_state))
       = {Some ''evt_1''}"
proof -
  let ?ev = "deltaEvent ''response.audio_transcript.delta'' (Some ''evt_1'') ''Hi''"
  have id: "event_id ?ev = Some ''evt_1''"
    by (simp add: deltaEvent_def blankEvent_def)
  have once: "map view (transcript (ingest env0 ?ev init_state)) = [(Assistant, True, ''Hi'')]
      \<and> processedEventIds (ingest env0 ?ev init_state) = {Some ''evt_1''}"
    by (simp add: eval_defs)
  from ingest_idempotent[OF id, of env1 env0 init_state] once id show ?thesis
    by simp
qed

subsection \<open>C8: only the end of the transcript changes\<close>

text \<open>
  Claim C8. After one call of \<open>ingest\<close> the transcript is the one before, or the one
  before with one entry appended, or the one before with its last entry replaced; in
  every case all entries before the last one are where they were.
\<close>

theorem ingest_frame:
  "(transcript (ingest e event st) = transcript st
    \<or> (\<exists>x. transcript (ingest e event st) = transcript st @ [x])
    \<or> (transcript st \<noteq> [] \<and>
        (\<exists>x. transcript (ingest e event st) = butlast (transcript st) @ [x])))
   \<and> take (length (transcript st) - 1) (transcript (ingest e event st))
       = butlast (transcript st)"
  using ingest_transcript_cases[of e event st] ingest_butlast[of st e event]
  by blast

theorem ingest_frame_witness:
  "transcript (stateWith [partialEntry User ''Hel'', partialEntry Assistant ''Hi'']) \<noteq> []
   \<and> transcript
        (ingest env0 (textEvent ''response.text.done'' (Some ''evt_1'') ''Hi there'')
          (stateWith [partialEntry User ''Hel'', partialEntry Assistant ''Hi'']))
       = butlast (transcript (stateWith [partialEntry User ''Hel'', partialEntry Assistant ''Hi'']))
         @ [(partialEntry Assistant ''Hi'')\<lparr>message := ''Hi there'', isPartial := False\<rparr>]
   \<and> take 1 (transcript
        (ingest env0 (textEvent ''response.text.done'' (Some ''evt_1'') ''Hi there'')
          (stateWith [partialEntry User ''Hel'', partialEntry Assistant ''Hi''])))
       = [partialEntry User ''Hel'']"
proof -
  let ?st = "stateWith [partialEntry User ''Hel'', partialEntry Assistant ''Hi'']"
  let ?ev = "textEvent ''response.text.done'' (Some ''evt_1'') ''Hi there''"
  have val: "transcript (ingest env0 ?ev ?st)
      = butlast (transcript ?st)
        @ [(partialEntry Assistant ''Hi'')\<lparr>message := ''Hi there'', isPartial := False\<rparr>]"
    by (simp add: eval_defs)
  from ingest_frame[of env0 ?ev ?st]
  have "take (length (transcript ?st) - 1) (transcript (ingest env0 ?ev ?st))
      = butlast (transcript ?st)"
    by blast
  then have "take 1 (transcript (ingest env0 ?ev ?st)) = [partialEntry User ''Hel'']"
    by (simp add: stateWith_def)
  with val show ?thesis by (simp add: stateWith_def)
qed

subsection \<open>C9: no two neighbouring partial entries of one speaker\<close>

text \<open>
  Claim C9. In every state reached from the empty transcript by any session of the
  component (ingesting an event, resetting on an empty event log, clearing the
  transcript), no two neighbouring entries are both partial with the same speaker; and whenever a call of
  \<open>ingest\<close> in such a state appends a partial entry, the entry that was last before is
  not a partial entry of that speaker.
\<close>

theorem no_adjacent_same_speaker_partials:
  assumes "st = run steps init_state"
  shows "no_adjacent_partials (transcript st)
       \<and> (transcript (ingest e event st) = transcript st @ [x] \<and> isPartial x \<longrightarrow>
            transcript st = []
            \<or> \<not> (isPartial (last (transcript st))
                   \<and> speaker (last (transcript st)) = speaker x))"
  using assms reachable_inv[of steps] new_partial_only_after_other[of st e event x]
  by blast

theorem no_adjacent_same_speaker_partials_witness:
  "map view (transcript (run twoDeltas init_state)) = [(Assistant, True, ''Hi there'')]
   \<and> no_adjacent_partials (transcript (run twoDeltas init_state))
   \<and> transcript (ingest env1 userDelta (run twoDeltas init_state))
       = transcript (run twoDeltas init_state) @ [newEntry env1 userDelta User ''Yes'' True]
   \<and> isPartial (newEntry env1 userDelta User ''Yes'' True)
   \<and> (transcript (run twoDeltas init_state) = []
       \<or> \<not> (isPartial (last (transcript (run twoDeltas init_state)))
              \<and> speaker (last (transcript (run twoDeltas init_state)))
                  = speaker (newEntry env1 userDelta User ''Yes'' True)))"
proof -
  let ?st = "run twoDeltas init_state"
  let ?x = "newEntry env1 userDelta User ''Yes'' True"
  have st: "?st = \<lparr>transcript = [newEntry env0
        (deltaEvent ''response.text.delta'' (Some ''evt_1'') ''Hi'') Assistant ''Hi there'' True],
      processedEventIds = {Some ''evt_1'', Some ''evt_2''}\<rparr>"
    by (simp add: twoDeltas_def processEvents_def eval_defs insert_commute)
  have shown: "map view (transcript ?st) = [(Assistant, True, ''Hi there'')]"
    unfolding st by (simp add: newEntry_def view_def)
  have step: "transcript (ingest env1 userDelta ?st) = transcript ?st @ [?x]"
    unfolding st by (simp add: userDelta_def eval_defs)
  have part: "isPartial ?x"
    by (simp add: newEntry_def)
  from no_adjacent_same_speaker_partials[of ?st twoDeltas env1 userDelta ?x] step part
  have "no_adjacent_partials (transcript ?st)
      \<and> (transcript ?st = []
          \<or> \<not> (isPartial (last (transcript ?st))
                 \<and> speaker (last (transcript ?st)) = speaker ?x))"
    by blast
  with shown step part show ?thesis by blast
qed


subsection \<open>C7: deltas coalesce, finalization replaces\<close>

text \<open>
  Claim C7. From the empty state, two assistant audio transcript deltas \<open>"Hel"\<close> and
  \<open>"lo"\<close> with distinct ids (under either name of the event) give exactly one partial
  assistant entry with message \<open>"Hello"\<close>; an assistant audio transcript completion
  \<open>"Hello there"\<close> with a third id then gives exactly one entry, finalized, whose
  message is \<open>"Hello there"\<close>.
\<close>

theorem coalesce_then_finalize:
  assumes "distinct [i1, i2, i3]"
    and "event_id d1 = Some i1" and "event_id d2 = Some i2" and "event_id c = Some i3"
    and "event_type d1 \<in> {''response.audio_transcript.delta'',
           ''response.output_audio_transcript.delta''}"
    and "event_type d2 \<in> {''response.audio_transcript.delta'',
           ''response.output_audio_transcript.delta''}"
    and "event_type c \<in> {''response.audio_transcript.done'',
           ''response.output_audio_transcript.done''}"
    and "payload d1 = Some ''Hel''" and "payload d2 = Some ''lo''"
    and "payload c = Some ''Hello there''"
  shows "map view (transcript (ingest e2 d2 (ingest e1 d1 init_state)))
           = [(Assistant, True, ''Hello'')]
       \<and> map view (transcript (ingest e3 c (ingest e2 d2 (ingest e1 d1 init_state))))
           = [(Assistant, False, ''Hello there'')]"
proof -
  let ?S1 = "\<lparr>transcript = [newEntry e1 d1 Assistant ''Hel'' True],
             processedEventIds = {Some i1}\<rparr>"
  let ?S2 = "\<lparr>transcript = [(newEntry e1 d1 Assistant ''Hel'' True)\<lparr>message := ''Hello''\<rparr>],
             processedEventIds = {Some i2, Some i1}\<rparr>"
  let ?S3 = "\<lparr>transcript = [(newEntry e1 d1 Assistant ''Hel'' True)
               \<lparr>message := ''Hello there'', isPartial := False\<rparr>],
             processedEventIds = {Some i3, Some i2, Some i1}\<rparr>"
  have "ingest e1 d1 init_state
      = applyUpdate d1 (mergeDelta e1 d1 Assistant ''Hel'') init_state"
    using assms by (intro ingest_assistant_delta) (auto simp: init_state_def)
  then have s1: "ingest e1 d1 init_state = ?S1"
    using assms by (simp add: applyUpdate_def mergeDelta_def init_state_def)
  have "ingest e2 d2 ?S1 = applyUpdate d2 (mergeDelta e2 d2 Assistant ''lo'') ?S1"
    using assms by (intro ingest_assistant_delta) auto
  then have s2: "ingest e2 d2 ?S1 = ?S2"
    using assms by (simp add: applyUpdate_def mergeDelta_def newEntry_def)
  have "ingest e3 c ?S2 = applyUpdate c (finalizeLast e3 c ''Hello there'') ?S2"
    using assms by (intro ingest_assistant_done) auto
  then have s3: "ingest e3 c ?S2 = ?S3"
    using assms by (simp add: applyUpdate_def finalizeLast_def newEntry_def)
  show ?thesis
    unfolding s1 s2 s3 by (simp add: view_def newEntry_def)
qed

theorem coalesce_then_finalize_witness:
  "distinct [''evt_1'', ''evt_2'', ''evt_3'']
   \<and> payload (deltaEvent ''response.audio_transcript.delta'' (Some ''evt_1'') ''Hel'')
       = Some ''Hel''
   \<and> payload (deltaEvent ''response.output_audio_transcript.delta'' (Some ''evt_2'') ''lo'')
       = Some ''lo''
   \<and> payload (transcriptEvent ''response.audio_transcript.done'' (Some ''evt_3'')
        ''Hello there'') = Some ''Hello there''
   \<and> map view (transcript
        (ingest env1
          (deltaEvent ''response.output_audio_transcript.delta'' (Some ''evt_2'') ''lo'')
          (ingest env0
            (deltaEvent ''response.audio_transcript.delta'' (Some ''evt_1'') ''Hel'')
            init_state)))
       = [(Assistant, True, ''Hello'')]
   \<and> map view (transcript
        (ingest env1
          (transcriptEvent ''response.audio_transcript.done'' (Some ''evt_3'') ''Hello there'')
          (ingest env1
            (deltaEvent ''response.output_audio_transcript.delta'' (Some ''evt_2'') ''lo'')
            (ingest env0
              (deltaEvent ''response.audio_transcript.delta'' (Some ''evt_1'') ''Hel'')
              init_state))))
       = [(Assistant, False, ''Hello there'')]"
proof -
  let ?d1 = "deltaEvent ''response.audio_transcript.delta'' (Some ''evt_1'') ''Hel''"
  let ?d2 = "deltaEvent ''response.output_audio_transcript.delta'' (Some ''evt_2'') ''lo''"
  let ?c = "transcriptEvent ''response.audio_transcript.done'' (Some ''evt_3'') ''Hello there''"
  have ids: "distinct [''evt_1'', ''evt_2'', ''evt_3'']" by simp
  have p1: "payload ?d1 = Some ''Hel''"
    by (simp add: payload_def deltaEvent_def blankEvent_def)
  have p2: "payload ?d2 = Some ''lo''"
    by (simp add: payload_def deltaEvent_def blankEvent_def js_or_def truthy_def)
  have p3: "payload ?c = Some ''Hello there''"
    by (simp add: payload_def transcriptEvent_def blankEvent_def)
  have "map view (transcript (ingest env1 ?d2 (ingest env0 ?d1 init_state)))
           = [(Assistant, True, ''Hello'')]
       \<and> map view (transcript (ingest env1 ?c (ingest env1 ?d2 (ingest env0 ?d1 init_state))))
           = [(Assistant, False, ''Hello there'')]"
    using p1 p2 p3
    by (intro coalesce_then_finalize[OF ids])
       (simp_all add: deltaEvent_def transcriptEvent_def blankEvent_def)
  with ids p1 p2 p3 show ?thesis by blast
qed

subsection \<open>C4: the end-to-end scenario\<close>

text \<open>
  Claim C4. From the empty state, the four events assistant audio delta \<open>"Hi"\<close>,
  assistant audio delta \<open>" there"\<close>, typed user message \<open>"Hello!"\<close> and assistant audio
  completion \<open>"Hi there, how can I help?"\<close>, with distinct ids, give three entries in
  this order: the assistant entry \<open>"Hi there"\<close>, still partial; the finalized user
  entry \<open>"Hello!"\<close>; the finalized assistant entry \<open>"Hi there, how can I help?"\<close>.
\<close>

theorem end_to_end_scenario:
  assumes "distinct [i1, i2, i3, i4]"
    and "event_id d1 = Some i1" and "event_id d2 = Some i2"
    and "event_id u = Some i3" and "event_id c = Some i4"
    and "event_type d1 \<in> {''response.audio_transcript.delta'',
           ''response.output_audio_transcript.delta''}"
    and "event_type d2 \<in> {''response.audio_transcript.delta'',
           ''response.output_audio_transcript.delta''}"
    and "event_type u = ''conversation.item.create''"
    and "event_type c \<in> {''response.audio_transcript.done'',
           ''response.output_audio_transcript.done''}"
    and "payload d1 = Some ''Hi''" and "payload d2 = Some '' there''"
    and "payload u = Some ''Hello!''"
    and "payload c = Some ''Hi there, how can I help?''"
  shows "map view (transcript
           (ingest e4 c (ingest e3 u (ingest e2 d2 (ingest e1 d1 init_state)))))
         = [(Assistant, True, ''Hi there''), (User, False, ''Hello!''),
            (Assistant, False, ''Hi there, how can I help?'')]"
proof -
  let ?S1 = "\<lparr>transcript = [newEntry e1 d1 Assistant ''Hi'' True],
             processedEventIds = {Some i1}\<rparr>"
  let ?S2 = "\<lparr>transcript = [(newEntry e1 d1 Assistant ''Hi'' True)\<lparr>message := ''Hi there''\<rparr>],
             processedEventIds = {Some i2, Some i1}\<rparr>"
  let ?S3 = "\<lparr>transcript = [(newEntry e1 d1 Assistant ''Hi'' True)\<lparr>message := ''Hi there''\<rparr>,
               newEntry e3 u User ''Hello!'' False],
             processedEventIds = {Some i3, Some i2, Some i1}\<rparr>"
  let ?S4 = "\<lparr>transcript = [(newEntry e1 d1 Assistant ''Hi'' True)\<lparr>message := ''Hi there''\<rparr>,
               newEntry e3 u User ''Hello!'' False,
               newEntry e4 c Assistant ''Hi there, how can I help?'' False],
             processedEventIds = {Some i4, Some i3, Some i2, Some i1}\<rparr>"
  have "ingest e1 d1 init_state
      = applyUpdate d1 (mergeDelta e1 d1 Assistant ''Hi'') init_state"
    using assms by (intro ingest_assistant_delta) (auto simp: init_state_def)
  then have s1: "ingest e1 d1 init_state = ?S1"
    using assms by (simp add: applyUpdate_def mergeDelta_def init_state_def)
  have "ingest e2 d2 ?S1 = applyUpdate d2 (mergeDelta e2 d2 Assistant '' there'') ?S1"
    using assms by (intro ingest_assistant_delta) auto
  then have s2: "ingest e2 d2 ?S1 = ?S2"
    using assms by (simp add: applyUpdate_def mergeDelta_def newEntry_def)
  have "ingest e3 u ?S2
      = applyUpdate u (\<lambda>prev. prev @ [newEntry e3 u User ''Hello!'' False]) ?S2"
    using assms by (intro ingest_complete_as_new) auto
  then have s3: "ingest e3 u ?S2 = ?S3"
    using assms by (simp add: applyUpdate_def)
  have "ingest e4 c ?S3
      = applyUpdate c (finalizeLast e4 c ''Hi there, how can I help?'') ?S3"
    using assms by (intro ingest_assistant_done) auto
  then have s4: "ingest e4 c ?S3 = ?S4"
    using assms by (simp add: applyUpdate_def finalizeLast_def newEntry_def)
  show ?thesis
    unfolding s1 s2 s3 s4 by (simp add: view_def newEntry_def)
qed

theorem end_to_end_scenario_witness:
  "distinct [''evt_1'', ''evt_2'', ''evt_3'', ''evt_4'']
   \<and> payload (userTextEvent (Some ''evt_3'') ''Hello!'') = Some ''Hello!''
   \<and> map view (transcript
        (ingest env1
          (transcriptEvent ''response.audio_transcript.done'' (Some ''evt_4'')
             ''Hi there, how can I help?'')
          (ingest env0 (userTextEvent (Some ''evt_3'') ''Hello!'')
            (ingest env1
              (deltaEvent ''response.audio_transcript.delta'' (Some ''evt_2'') '' there'')
              (ingest env0
                (deltaEvent ''response.audio_transcript.delta'' (Some ''evt_1'') ''Hi'')
                init_state)))))
       = [(Assistant, True, ''Hi there''), (User, False, ''Hello!''),
          (Assistant, False, ''Hi there, how can I help?'')]"
proof -
  let ?d1 = "deltaEvent ''response.audio_transcript.delta'' (Some ''evt_1'') ''Hi''"
  let ?d2 = "deltaEvent ''response.audio_transcript.delta'' (Some ''evt_2'') '' there''"
  let ?u = "userTextEvent (Some ''evt_3'') ''Hello!''"
  let ?c = "transcriptEvent ''response.audio_transcript.done'' (Some ''evt_4'')
             ''Hi there, how can I help?''"
  have ids: "distinct [''evt_1'', ''evt_2'', ''evt_3'', ''evt_4'']" by simp
  have pu: "payload ?u = Some ''Hello!''"
    by (simp add: payload_def itemText_def userMessageContent_def userTextEvent_def
          blankEvent_def)
  have "map view (transcript
           (ingest env1 ?c (ingest env0 ?u (ingest env1 ?d2 (ingest env0 ?d1 init_state)))))
         = [(Assistant, True, ''Hi there''), (User, False, ''Hello!''),
            (Assistant, False, ''Hi there, how can I help?'')]"
    using pu
    by (intro end_to_end_scenario[OF ids])
       (simp_all add: payload_def deltaEvent_def transcriptEvent_def userTextEvent_def
          blankEvent_def)
  with ids pu show ?thesis by blast
qed


subsection \<open>C10: an assistant completion finalizes a partial user entry\<close>

text \<open>
  Claim C10. When the last entry is a partial entry whose speaker is the user, an
  assistant completion event (any of the four \<open>done\<close> types) that is not skipped as a
  duplicate and whose final text \<open>t\<close> is not empty rewrites that entry: the message
  becomes \<open>t\<close>, \<open>isPartial\<close> becomes false, the speaker stays the user, and no entry is
  added.
\<close>

theorem assistant_done_finalizes_user_partial:
  assumes "transcript st \<noteq> []"
    and "isPartial (last (transcript st))"
    and "speaker (last (transcript st)) = User"
    and "event_type event \<in> {''response.audio_transcript.done'',
           ''response.output_audio_transcript.done'',
           ''response.text.done'', ''response.output_text.done''}"
    and "payload event = Some t" and "t \<noteq> []"
    and "event_id event \<notin> processedEventIds st"
  shows "transcript (ingest e event st)
           = butlast (transcript st) @ [(last (transcript st))\<lparr>message := t, isPartial := False\<rparr>]
       \<and> message (last (transcript (ingest e event st))) = t
       \<and> \<not> isPartial (last (transcript (ingest e event st)))
       \<and> speaker (last (transcript (ingest e event st))) = User
       \<and> length (transcript (ingest e event st)) = length (transcript st)"
proof -
  have "ingest e event st = applyUpdate event (finalizeLast e event t) st"
    using assms(4-7) by (rule ingest_assistant_done)
  then have "transcript (ingest e event st)
      = butlast (transcript st) @ [(last (transcript st))\<lparr>message := t, isPartial := False\<rparr>]"
    using assms(1,2) by (simp add: applyUpdate_def finalizeLast_def)
  then show ?thesis using assms(1,3) by simp
qed

theorem assistant_done_finalizes_user_partial_witness:
  "isPartial (last (transcript (stateWith [partialEntry User ''I have a'']))) 
   \<and> speaker (last (transcript (stateWith [partialEntry User ''I have a'']))) = User
   \<and> payload (textEvent ''response.text.done'' (Some ''evt_1'') ''How are you?'')
       = Some ''How are you?''
   \<and> event_id (textEvent ''response.text.done'' (Some ''evt_1'') ''How are you?'')
       \<notin> processedEventIds (stateWith [partialEntry User ''I have a''])
   \<and> map view (transcript
        (ingest env0 (textEvent ''response.text.done'' (Some ''evt_1'') ''How are you?'')
          (stateWith [partialEntry User ''I have a''])))
       = [(User, False, ''How are you?'')]"
proof -
  let ?st = "stateWith [partialEntry User ''I have a'']"
  let ?ev = "textEvent ''response.text.done'' (Some ''evt_1'') ''How are you?''"
  have h1: "transcript ?st \<noteq> []" by (simp add: stateWith_def)
  have h2: "isPartial (last (transcript ?st))" by (simp add: stateWith_def partialEntry_def)
  have h3: "speaker (last (transcript ?st)) = User"
    by (simp add: stateWith_def partialEntry_def)
  have h4: "event_type ?ev \<in> {''response.audio_transcript.done'',
           ''response.output_audio_transcript.done'',
           ''response.text.done'', ''response.output_text.done''}"
    by (simp add: textEvent_def blankEvent_def)
  have h5: "payload ?ev = Some ''How are you?''"
    by (simp add: payload_def textEvent_def blankEvent_def)
  have h6: "''How are you?'' \<noteq> []" by simp
  have h7: "event_id ?ev \<notin> processedEventIds ?st"
    by (simp add: textEvent_def blankEvent_def stateWith_def)
  from assistant_done_finalizes_user_partial[OF h1 h2 h3 h4 h5 h6 h7, of env0]
  have "map view (transcript (ingest env0 ?ev ?st)) = [(User, False, ''How are you?'')]"
    by (simp add: stateWith_def partialEntry_def view_def)
  with h2 h3 h5 h7 show ?thesis by blast
qed

subsection \<open>C3: events without an id\<close>

text \<open>
  Claim C3 says that an event without \<open>event_id\<close> is never skipped by the duplicate
  check. The component adds \<open>event.event_id\<close> to the set also when it is \<open>undefined\<close>,
  and looks \<open>undefined\<close> up like any id. So once one id-less event has been processed,
  the next one is skipped: after the id-less assistant deltas \<open>"Hel"\<close> and \<open>"lo"\<close> the
  transcript still reads \<open>"Hel"\<close>, although the same two deltas with ids give
  \<open>"Hello"\<close>.
\<close>

theorem idless_event_skipped:
  "event_id (deltaEvent ''response.audio_transcript.delta'' None ''Hel'') = None
   \<and> event_id (deltaEvent ''response.audio_transcript.delta'' None ''lo'') = None
   \<and> processedEventIds
        (ingest env0 (deltaEvent ''response.audio_transcript.delta'' None ''Hel'') init_state)
       = {None}
   \<and> ingest env1 (deltaEvent ''response.audio_transcript.delta'' None ''lo'')
        (ingest env0 (deltaEvent ''response.audio_transcript.delta'' None ''Hel'') init_state)
       = ingest env0 (deltaEvent ''response.audio_transcript.delta'' None ''Hel'') init_state
   \<and> map view (transcript
        (ingest env1 (deltaEvent ''response.audio_transcript.delta'' None ''lo'')
          (ingest env0 (deltaEvent ''response.audio_transcript.delta'' None ''Hel'')
            init_state)))
       = [(Assistant, True, ''Hel'')]"
  by (simp add: eval_defs)


subsection \<open>C2: completion of the user's audio transcription\<close>

text \<open>
  Claim C2 says that both user completion events finalize the last entry whenever it
  is partial, whoever its speaker is. Under
  \<open>input_audio_buffer.transcription.completed\<close> the component asks for a partial entry
  of type \<open>user\<close>: with a partial assistant entry last it appends. Under
  \<open>conversation.item.input_audio_transcription.completed\<close> it appends even after a
  partial user entry.
\<close>

theorem user_audio_complete_counterexample:
  "isPartial (last (transcript (stateWith [partialEntry Assistant ''Hi''])))
   \<and> transcript
        (ingest env0
          (transcriptEvent ''input_audio_buffer.transcription.completed'' (Some ''evt_1'')
             ''Hello'')
          (stateWith [partialEntry Assistant ''Hi'']))
       \<noteq> butlast (transcript (stateWith [partialEntry Assistant ''Hi'']))
           @ [(last (transcript (stateWith [partialEntry Assistant ''Hi''])))
                \<lparr>message := ''Hello'', isPartial := False\<rparr>]
   \<and> map view (transcript
        (ingest env0
          (transcriptEvent ''input_audio_buffer.transcription.completed'' (Some ''evt_1'')
             ''Hello'')
          (stateWith [partialEntry Assistant ''Hi''])))
       = [(Assistant, True, ''Hi''), (User, False, ''Hello'')]
   \<and> isPartial (last (transcript (stateWith [partialEntry User ''Hel''])))
   \<and> map view (transcript
        (ingest env0
          (transcriptEvent ''conversation.item.input_audio_transcription.completed''
             (Some ''evt_1'') ''Hello'')
          (stateWith [partialEntry User ''Hel''])))
       = [(User, True, ''Hel''), (User, False, ''Hello'')]"
  by (simp add: eval_defs)

text \<open>
  Claim C2 as amended. For a user completion event that is not skipped as a duplicate
  and whose transcript \<open>t\<close> is not empty: under
  \<open>input_audio_buffer.transcription.completed\<close>, a last entry that is a partial entry of
  type \<open>user\<close> gets the message \<open>t\<close> and \<open>isPartial\<close> false; under either event type, when
  the last entry is not a partial entry of type \<open>user\<close> (or there is none), a new
  finalized user entry with message \<open>t\<close> is appended.
\<close>

theorem user_audio_complete_amended:
  assumes "event_type event = ''conversation.item.input_audio_transcription.completed''
         \<or> event_type event = ''input_audio_buffer.transcription.completed''"
    and "event_transcript event = Some t" and "t \<noteq> []"
    and "event_id event \<notin> processedEventIds st"
  shows "(event_type event = ''input_audio_buffer.transcription.completed''
          \<and> transcript st \<noteq> [] \<and> entry_type (last (transcript st)) = User
          \<and> isPartial (last (transcript st))
          \<longrightarrow> transcript (ingest e event st)
                = butlast (transcript st)
                  @ [(last (transcript st))\<lparr>message := t, isPartial := False\<rparr>])
       \<and> (\<not> (transcript st \<noteq> [] \<and> entry_type (last (transcript st)) = User
              \<and> isPartial (last (transcript st)))
          \<longrightarrow> transcript (ingest e event st)
                = transcript st @ [newEntry e event User t False])"
proof -
  from assms(1) show ?thesis
  proof
    assume ty: "event_type event = ''conversation.item.input_audio_transcription.completed''"
    then have "payload event = Some t"
      using assms(2) by (simp add: payload_dispatch)
    then have "ingest e event st
        = applyUpdate event (\<lambda>prev. prev @ [newEntry e event User t False]) st"
      using ty assms(3,4) by (intro ingest_complete_as_new) simp_all
    then show ?thesis using ty by (simp add: applyUpdate_def)
  next
    assume ty: "event_type event = ''input_audio_buffer.transcription.completed''"
    then have "payload event = Some t"
      using assms(2) by (simp add: payload_dispatch)
    then have "ingest e event st = applyUpdate event (finalizeUser e event t) st"
      using ty assms(3,4) by (intro ingest_buffer_completed) simp_all
    then show ?thesis by (auto simp: applyUpdate_def finalizeUser_def)
  qed
qed

theorem user_audio_complete_amended_witness:
  "event_transcript
      (transcriptEvent ''input_audio_buffer.transcription.completed'' (Some ''evt_1'') ''Hello'')
     = Some ''Hello''
   \<and> event_id
        (transcriptEvent ''input_audio_buffer.transcription.completed'' (Some ''evt_1'') ''Hello'')
       \<notin> processedEventIds (stateWith [partialEntry User ''Hel''])
   \<and> entry_type (last (transcript (stateWith [partialEntry User ''Hel'']))) = User
   \<and> isPartial (last (transcript (stateWith [partialEntry User ''Hel''])))
   \<and> map view (transcript
        (ingest env0
          (transcriptEvent ''input_audio_buffer.transcription.completed'' (Some ''evt_1'')
             ''Hello'')
          (stateWith [partialEntry User ''Hel''])))
       = [(User, False, ''Hello'')]
   \<and> \<not> (entry_type (last (transcript (stateWith [partialEntry Assistant ''Hi'']))) = User)
   \<and> map view (transcript
        (ingest env0
          (transcriptEvent ''conversation.item.input_audio_transcription.completed''
             (Some ''evt_1'') ''Hello'')
          (stateWith [partialEntry Assistant ''Hi''])))
       = [(Assistant, True, ''Hi''), (User, False, ''Hello'')]"
proof -
  let ?b = "transcriptEvent ''input_audio_buffer.transcription.completed'' (Some ''evt_1'')
              ''Hello''"
  let ?c = "transcriptEvent ''conversation.item.input_audio_transcription.completed''
              (Some ''evt_1'') ''Hello''"
  let ?su = "stateWith [partialEntry User ''Hel'']"
  let ?sa = "stateWith [partialEntry Assistant ''Hi'']"
  have ne: "''Hello'' \<noteq> []" by simp
  have tb: "event_type ?b = ''conversation.item.input_audio_transcription.completed''
         \<or> event_type ?b = ''input_audio_buffer.transcription.completed''"
    by (simp add: transcriptEvent_def blankEvent_def)
  have tc: "event_type ?c = ''conversation.item.input_audio_transcription.completed''
         \<or> event_type ?c = ''input_audio_buffer.transcription.completed''"
    by (simp add: transcriptEvent_def blankEvent_def)
  have pb: "event_transcript ?b = Some ''Hello''"
    by (simp add: transcriptEvent_def blankEvent_def)
  have pc: "event_transcript ?c = Some ''Hello''"
    by (simp add: transcriptEvent_def blankEvent_def)
  have ib: "event_id ?b \<notin> processedEventIds ?su"
    by (simp add: transcriptEvent_def blankEvent_def stateWith_def)
  have ic: "event_id ?c \<notin> processedEventIds ?sa"
    by (simp add: transcriptEvent_def blankEvent_def stateWith_def)
  have lu: "entry_type (last (transcript ?su)) = User \<and> isPartial (last (transcript ?su))"
    by (simp add: stateWith_def partialEntry_def)
  have la: "\<not> (entry_type (last (transcript ?sa)) = User)"
    by (simp add: stateWith_def partialEntry_def)
  from user_audio_complete_amended[OF tb pb ne ib, of env0] lu
  have r1: "map view (transcript (ingest env0 ?b ?su)) = [(User, False, ''Hello'')]"
    by (simp add: transcriptEvent_def blankEvent_def stateWith_def partialEntry_def view_def)
  from user_audio_complete_amended[OF tc pc ne ic, of env0] la
  have r2: "map view (transcript (ingest env0 ?c ?sa))
      = [(Assistant, True, ''Hi''), (User, False, ''Hello'')]"
    by (simp add: stateWith_def partialEntry_def view_def newEntry_def
          transcriptEvent_def blankEvent_def)
  from pb ib lu r1 la r2 show ?thesis by blast
qed


subsection \<open>C5: ignored events and empty payloads\<close>

text \<open>
  Claim C5 says that an ignored event, or one whose text is empty or absent, leaves the
  transcript unchanged and has its id recorded. The component returns from these cases
  before it reaches any \<open>processedEventIds.current.add\<close>: the id of a
  \<open>speech_started\<close> notification is not in the set afterwards.
\<close>

theorem ignored_event_counterexample:
  "event_id (blankEvent ''input_audio_buffer.speech_started'' (Some ''evt_1''))
     = Some ''evt_1''
   \<and> transcript
        (ingest env0 (blankEvent ''input_audio_buffer.speech_started'' (Some ''evt_1''))
          init_state) = []
   \<and> Some ''evt_1'' \<notin> processedEventIds
        (ingest env0 (blankEvent ''input_audio_buffer.speech_started'' (Some ''evt_1''))
          init_state)"
  by (simp add: eval_defs)

text \<open>
  Claim C5 as amended. For an event whose type has no case that can change the
  transcript, or whose tested text is empty or absent, \<open>ingest\<close> leaves the transcript
  and the set of processed ids as they were: the id is not recorded.
\<close>

theorem ignored_event_changes_nothing:
  assumes "event_type event \<notin> set handledTypes \<or> \<not> truthy (payload event)"
  shows "transcript (ingest e event st) = transcript st
       \<and> processedEventIds (ingest e event st) = processedEventIds st"
proof -
  from assms have "\<not> truthy (payload event)"
    using unhandled_payload[of event] by (auto simp: truthy_def)
  then show ?thesis by (simp add: ingest_falsy)
qed

theorem ignored_event_changes_nothing_witness:
  "event_type (blankEvent ''input_audio_buffer.speech_started'' (Some ''evt_1''))
     \<notin> set handledTypes
   \<and> processedEventIds
        (ingest env0 (blankEvent ''input_audio_buffer.speech_started'' (Some ''evt_1''))
          (stateWith [partialEntry User ''Hel'']))
       = {Some ''evt_0''}
   \<and> \<not> truthy (payload (blankEvent ''response.text.done'' (Some ''evt_2'')))
   \<and> map view (transcript
        (ingest env0 (blankEvent ''response.text.done'' (Some ''evt_2''))
          (stateWith [partialEntry User ''Hel''])))
       = [(User, True, ''Hel'')]"
proof -
  let ?a = "blankEvent ''input_audio_buffer.speech_started'' (Some ''evt_1'')"
  let ?b = "blankEvent ''response.text.done'' (Some ''evt_2'')"
  let ?st = "stateWith [partialEntry User ''Hel'']"
  have ha: "event_type ?a \<notin> set handledTypes"
    by (simp add: blankEvent_def handledTypes_def)
  have hb: "\<not> truthy (payload ?b)"
    by (simp add: payload_def blankEvent_def truthy_def)
  from ignored_event_changes_nothing[of ?a, OF disjI1, OF ha, of env0 ?st]
  have ra: "processedEventIds (ingest env0 ?a ?st) = {Some ''evt_0''}"
    by (simp add: stateWith_def)
  from ignored_event_changes_nothing[of ?b, OF disjI2, OF hb, of env0 ?st]
  have rb: "map view (transcript (ingest env0 ?b ?st)) = [(User, True, ''Hel'')]"
    by (simp add: stateWith_def partialEntry_def view_def)
  from ha ra hb rb show ?thesis by blast
qed

subsection \<open>C6: the fragment of an assistant audio delta\<close>

text \<open>
  Claim C6 says that under both names of the assistant audio delta the fragment is
  \<open>delta\<close> when present and \<open>text\<close> otherwise. The case
  \<open>response.audio_transcript.delta\<close> reads \<open>event.delta\<close> only, so an event of that
  type carrying only \<open>text\<close> adds nothing. And under
  \<open>response.output_audio_transcript.delta\<close> the fallback is \<open>||\<close>: a \<open>delta\<close> that is
  present but empty gives way to \<open>text\<close>.
\<close>

theorem assistant_audio_delta_counterexample:
  "event_delta (textEvent ''response.audio_transcript.delta'' (Some ''evt_1'') ''Hi'') = None
   \<and> event_text (textEvent ''response.audio_transcript.delta'' (Some ''evt_1'') ''Hi'')
       = Some ''Hi''
   \<and> ingest env0 (textEvent ''response.audio_transcript.delta'' (Some ''evt_1'') ''Hi'')
        init_state = init_state
   \<and> transcript init_state = []
   \<and> map view (transcript
        (ingest env0
          ((textEvent ''response.output_audio_transcript.delta'' (Some ''evt_1'') ''Hi'')
             \<lparr>event_delta := Some []\<rparr>)
          init_state))
       = [(Assistant, True, ''Hi'')]"
  by (simp add: eval_defs)

text \<open>
  Claim C6 as amended. For an event that is not skipped as a duplicate: under
  \<open>response.output_audio_transcript.delta\<close> the fragment is \<open>delta\<close> when that is a
  non-empty string, and otherwise \<open>text\<close> when that is a non-empty string; under
  \<open>response.audio_transcript.delta\<close> the fragment is \<open>delta\<close> when that is a non-empty
  string, and an event of that type without one changes nothing, whatever its \<open>text\<close>.
  A fragment is merged into the transcript as an assistant delta.
\<close>

theorem assistant_audio_delta_fragment:
  assumes "event_id event \<notin> processedEventIds st"
  shows "(event_type event = ''response.output_audio_transcript.delta''
          \<and> event_delta event = Some t \<and> t \<noteq> []
          \<longrightarrow> transcript (ingest e event st) = mergeDelta e event Assistant t (transcript st))
       \<and> (event_type event = ''response.output_audio_transcript.delta''
          \<and> \<not> truthy (event_delta event) \<and> event_text event = Some t \<and> t \<noteq> []
          \<longrightarrow> transcript (ingest e event st) = mergeDelta e event Assistant t (transcript st))
       \<and> (event_type event = ''response.audio_transcript.delta''
          \<and> event_delta event = Some t \<and> t \<noteq> []
          \<longrightarrow> transcript (ingest e event st) = mergeDelta e event Assistant t (transcript st))
       \<and> (event_type event = ''response.audio_transcript.delta''
          \<and> \<not> truthy (event_delta event)
          \<longrightarrow> ingest e event st = st)"
proof -
  have merged: "transcript (ingest e event st) = mergeDelta e event Assistant t (transcript st)"
    if "event_type event \<in> {''response.audio_transcript.delta'',
          ''response.output_audio_transcript.delta'',
          ''response.text.delta'', ''response.output_text.delta''}"
      and "payload event = Some t" and "t \<noteq> []"
  proof -
    have "ingest e event st = applyUpdate event (mergeDelta e event Assistant t) st"
      using that assms by (rule ingest_assistant_delta)
    then show ?thesis by (simp add: applyUpdate_def)
  qed
  have a: "transcript (ingest e event st) = mergeDelta e event Assistant t (transcript st)"
    if "event_type event = ''response.output_audio_transcript.delta''"
      and "event_delta event = Some t" and "t \<noteq> []"
    using that by (intro merged) (simp_all add: payload_dispatch js_or_def truthy_def)
  have b: "transcript (ingest e event st) = mergeDelta e event Assistant t (transcript st)"
    if "event_type event = ''response.output_audio_transcript.delta''"
      and "\<not> truthy (event_delta event)" and "event_text event = Some t" and "t \<noteq> []"
    using that by (intro merged) (simp_all add: payload_dispatch js_or_def)
  have c: "transcript (ingest e event st) = mergeDelta e event Assistant t (transcript st)"
    if "event_type event = ''response.audio_transcript.delta''"
      and "event_delta event = Some t" and "t \<noteq> []"
    using that by (intro merged) (simp_all add: payload_dispatch)
  have d: "ingest e event st = st"
    if "event_type event = ''response.audio_transcript.delta''"
      and "\<not> truthy (event_delta event)"
    using that by (intro ingest_falsy) (simp add: payload_dispatch)
  from a b c d show ?thesis by blast
qed

theorem assistant_audio_delta_fragment_witness:
  "event_id (textEvent ''response.output_audio_transcript.delta'' (Some ''evt_1'') ''Hi'')
     \<notin> processedEventIds (stateWith [partialEntry Assistant ''Oh. ''])
   \<and> \<not> truthy (event_delta
          (textEvent ''response.output_audio_transcript.delta'' (Some ''evt_1'') ''Hi''))
   \<and> map view (transcript
        (ingest env0
          (textEvent ''response.output_audio_transcript.delta'' (Some ''evt_1'') ''Hi'')
          (stateWith [partialEntry Assistant ''Oh. ''])))
       = [(Assistant, True, ''Oh. Hi'')]
   \<and> map view (transcript
        (ingest env0
          (deltaEvent ''response.output_audio_transcript.delta'' (Some ''evt_1'') ''Hi'')
          (stateWith [partialEntry Assistant ''Oh. ''])))
       = [(Assistant, True, ''Oh. Hi'')]
   \<and> map view (transcript
        (ingest env0
          (deltaEvent ''response.audio_transcript.delta'' (Some ''evt_1'') ''Hi'')
          (stateWith [partialEntry Assistant ''Oh. ''])))
       = [(Assistant, True, ''Oh. Hi'')]
   \<and> \<not> truthy (event_delta
          (textEvent ''response.audio_transcript.delta'' (Some ''evt_1'') ''Hi''))
   \<and> ingest env0 (textEvent ''response.audio_transcript.delta'' (Some ''evt_1'') ''Hi'')
        (stateWith [partialEntry Assistant ''Oh. ''])
       = stateWith [partialEntry Assistant ''Oh. '']"
proof -
  let ?st = "stateWith [partialEntry Assistant ''Oh. '']"
  let ?ot = "textEvent ''response.output_audio_transcript.delta'' (Some ''evt_1'') ''Hi''"
  let ?od = "deltaEvent ''response.output_audio_transcript.delta'' (Some ''evt_1'') ''Hi''"
  let ?ad = "deltaEvent ''response.audio_transcript.delta'' (Some ''evt_1'') ''Hi''"
  let ?at = "textEvent ''response.audio_transcript.delta'' (Some ''evt_1'') ''Hi''"
  have fresh: "event_id ?ot \<notin> processedEventIds ?st" "event_id ?od \<notin> processedEventIds ?st"
    "event_id ?ad \<notin> processedEventIds ?st" "event_id ?at \<notin> processedEventIds ?st"
    by (simp_all add: textEvent_def deltaEvent_def blankEvent_def stateWith_def)
  have nodelta: "\<not> truthy (event_delta ?ot)" "\<not> truthy (event_delta ?at)"
    by (simp_all add: textEvent_def blankEvent_def truthy_def)
  have merged: "map view (mergeDelta env0 ev Assistant ''Hi'' (transcript ?st))
      = [(Assistant, True, ''Oh. Hi'')]" for ev
    by (simp add: mergeDelta_def stateWith_def partialEntry_def view_def)
  from assistant_audio_delta_fragment[OF fresh(1), of "''Hi''" env0] nodelta(1)
  have r1: "map view (transcript (ingest env0 ?ot ?st)) = [(Assistant, True, ''Oh. Hi'')]"
    by (simp add: merged) (simp add: textEvent_def blankEvent_def merged)
  from assistant_audio_delta_fragment[OF fresh(2), of "''Hi''" env0]
  have r2: "map view (transcript (ingest env0 ?od ?st)) = [(Assistant, True, ''Oh. Hi'')]"
    by (simp add: merged) (simp add: deltaEvent_def blankEvent_def merged)
  from assistant_audio_delta_fragment[OF fresh(3), of "''Hi''" env0]
  have r3: "map view (transcript (ingest env0 ?ad ?st)) = [(Assistant, True, ''Oh. Hi'')]"
    by (simp add: merged) (simp add: deltaEvent_def blankEvent_def merged)
  from assistant_audio_delta_fragment[OF fresh(4), of "''Hi''" env0] nodelta(2)
  have r4: "ingest env0 ?at ?st = ?st"
    by (simp add: textEvent_def blankEvent_def)
  from fresh(1) nodelta r1 r2 r3 r4 show ?thesis by blast
qed

end
